theory Spec2Isabelle
  imports Main
begin

section \<open>Python values used by cvss.py\<close>

text \<open>
  A Python \<open>str\<close> is a \<open>string\<close>; the one-character arguments of \<open>find\<close>, \<open>rfind\<close>,
  \<open>split\<close> and \<open>in\<close> are given as a \<open>char\<close>. A Python \<open>dict\<close> keeps its keys unique and in
  insertion order, so it is an association list: storing under a key that is present
  replaces the value where the key stands, storing under a new key appends.
\<close>

type_synonym ('k, 'v) pydict = "('k \<times> 'v) list"

datatype py_error = KeyError string

fun dict_set :: "('k, 'v) pydict \<Rightarrow> 'k \<Rightarrow> 'v \<Rightarrow> ('k, 'v) pydict" where
  "dict_set [] k v = [(k, v)]"
| "dict_set ((k', v') # d) k v =
     (if k' = k then (k', v) # d else (k', v') # dict_set d k v)"

text \<open>\<open>table[value]\<close>: the entry, or \<open>KeyError\<close> when the key is absent.\<close>

definition py_getitem :: "(string, 'v) pydict \<Rightarrow> string \<Rightarrow> py_error + 'v" where
  "py_getitem table k = (case map_of table k of None \<Rightarrow> Inl (KeyError k) | Some v \<Rightarrow> Inr v)"

text \<open>\<open>s.find(c)\<close> and \<open>s.rfind(c)\<close>: the lowest and the highest index of \<open>c\<close>, or \<open>-1\<close>.\<close>

definition py_find :: "string \<Rightarrow> char \<Rightarrow> int" where
  "py_find s c = (if c \<in> set s then int (length (takeWhile (\<lambda>x. x \<noteq> c) s)) else - 1)"

definition py_rfind :: "string \<Rightarrow> char \<Rightarrow> int" where
  "py_rfind s c =
     (if c \<in> set s then int (length s) - 1 - int (length (takeWhile (\<lambda>x. x \<noteq> c) (rev s)))
      else - 1)"

text \<open>
  Slices never raise: a negative bound counts from the end, and every bound is clamped
  to the string.
\<close>

definition slice_index :: "string \<Rightarrow> int \<Rightarrow> nat" where
  "slice_index s i =
     (let n = int (length s) in nat (if i < 0 then max 0 (n + i) else min i n))"

definition py_slice_from :: "string \<Rightarrow> int \<Rightarrow> string" where
  \<comment> \<open>\<open>s[i:]\<close>\<close>
  "py_slice_from s i = drop (slice_index s i) s"

definition py_slice_to :: "string \<Rightarrow> int \<Rightarrow> string" where
  \<comment> \<open>\<open>s[:i]\<close>\<close>
  "py_slice_to s i = take (slice_index s i) s"

text \<open>\<open>s.split(sep)\<close> for a one-character separator: never empty, \<open>''''.split('/') = ['''']\<close>.\<close>

fun py_split :: "string \<Rightarrow> char \<Rightarrow> string list" where
  "py_split [] sep = [[]]"
| "py_split (c # cs) sep =
     (if c = sep then [] # py_split cs sep
      else (let r = py_split cs sep in (c # hd r) # tl r))"

text \<open>
  \<open>s.lower()\<close>. A \<open>char\<close> is a code point below 256; there the letters with a lowercase
  form are \<open>A\<close> to \<open>Z\<close> and the accented capitals \<open>0xC0\<close> to \<open>0xDE\<close> but \<open>0xD7\<close>, each 32
  below its lowercase form.
\<close>

definition upper_letters :: string where
  "upper_letters =
     ''ABCDEFGHIJKLMNOPQRSTUVWXYZ'' @
       [CHR 0xC0, CHR 0xC1, CHR 0xC2, CHR 0xC3, CHR 0xC4, CHR 0xC5,
        CHR 0xC6, CHR 0xC7, CHR 0xC8, CHR 0xC9, CHR 0xCA, CHR 0xCB,
        CHR 0xCC, CHR 0xCD, CHR 0xCE, CHR 0xCF, CHR 0xD0, CHR 0xD1,
        CHR 0xD2, CHR 0xD3, CHR 0xD4, CHR 0xD5, CHR 0xD6, CHR 0xD8,
        CHR 0xD9, CHR 0xDA, CHR 0xDB, CHR 0xDC, CHR 0xDD, CHR 0xDE]"

definition lower_letters :: string where
  "lower_letters =
     ''abcdefghijklmnopqrstuvwxyz'' @
       [CHR 0xE0, CHR 0xE1, CHR 0xE2, CHR 0xE3, CHR 0xE4, CHR 0xE5,
        CHR 0xE6, CHR 0xE7, CHR 0xE8, CHR 0xE9, CHR 0xEA, CHR 0xEB,
        CHR 0xEC, CHR 0xED, CHR 0xEE, CHR 0xEF, CHR 0xF0, CHR 0xF1,
        CHR 0xF2, CHR 0xF3, CHR 0xF4, CHR 0xF5, CHR 0xF6, CHR 0xF8,
        CHR 0xF9, CHR 0xFA, CHR 0xFB, CHR 0xFC, CHR 0xFD, CHR 0xFE]"

definition char_lower :: "char \<Rightarrow> char" where
  "char_lower c =
     (case map_of (zip upper_letters lower_letters) c of None \<Rightarrow> c | Some l \<Rightarrow> l)"

definition lower :: "string \<Rightarrow> string" where
  "lower s = map char_lower s"

section \<open>Metric definitions\<close>

definition access_vector :: "(string \<times> string) list" where
  "access_vector =
    [(''L'',
      ''Local (L): The attacker must have physical or logical access to the affected system.''),
     (''A'',
      ''Adjacent Network (A): The attacker must have access to the local network that the affected system is connected to.''),
     (''N'',
      ''Network (N): The attacker can remotely exploit the vulnerability.''),
     (''P'',
      ''The attack requires the attacker to physically touch or manipulate the vulnerable component.'')]"

definition access_complexitiyv2 :: "(string \<times> string) list" where
  "access_complexitiyv2 =
    [(''L'',
      ''Low (L): Exploiting the vulnerability does not require specilized conditions.''),
     (''M'',
      ''Medium (M): Exploiting the vulnerability requires \"somewhat specilized\" conditions.''),
     (''H'',
      ''High (H): Exploiting the vulnerability requires \"specialized\" conditions that would be difficult to find.'')]"

definition access_complexitiyv3 :: "(string \<times> string) list" where
  "access_complexitiyv3 =
    [(''H'',
      ''High (H): A successful attack depends on conditions beyond the attacker's control. That is, a successful attack cannot be accomplished at will, but requires the attacker to invest in some measurable amount of effort in preparation or execution against the vulnerable component before a successful attack can be expected.''),
     (''L'',
      ''Low (L): Specialized access conditions or extenuating circumstances do not exist. An attacker can expect repeatable success against the vulnerable component.'')]"

definition privileges_required :: "(string \<times> string) list" where
  "privileges_required =
    [(''N'',
      ''None (N): The attacker is unauthorized prior to attack, and therefore does not require any access to settings or files of the vulnerable system to carry out an attack.''),
     (''L'',
      ''Low (L): The attacker requires privileges that provide basic user capabilites that could normally affect only settings and files ownwed by a user. Alternatively, an attacker with Low privileges has the ability to access only non-sensitive resources.''),
     (''H'',
      ''High (H): The attacker requires privileges that provide significant (e.g., administrative) control over the vulnerable component allowing access to component-wide settings and files.'')]"

definition user_interaction :: "(string \<times> string) list" where
  "user_interaction =
    [(''N'',
      ''None (N): The vulnerable system can be exploited without interaction from any user.''),
     (''R'',
      ''Required (R): Successful exploitation of this vulnerability requires a user to take some action before the vulnerability can be exploited. For example, a successful exploit may only be possible during the installation of an application by a system administrator.'')]"

definition scope :: "(string \<times> string) list" where
  "scope =
    [(''U'',
      ''Unchanged (U): An exploited vulnerability can only affect resources managed by the same security authority. In this case, the vulnerable component and the impacted component are either the same, or both are managed by the same security authority.''),
     (''C'',
      ''Changed (C): An exploited vulnerability can affect resources beyond the security scope managed by the security authority of the vulnerable component. In this case, the vulnerable component and the impacted component are different and managed by different security authorities.'')]"

definition authentication :: "(string \<times> string) list" where
  "authentication =
    [(''N'',
      ''None (N): Attackers do not need to authenticate to exploit the vulnerability.''),
     (''S'',
      ''Single (S): Attackers would need to authenticate once to exploit the vulnerability.''),
     (''M'',
      ''Multiple (M): Attackers would need to authenticate two or more times exploit the vulnerability.'')]"

definition confidentialityv2 :: "(string \<times> string) list" where
  "confidentialityv2 =
    [(''N'',
      ''None (N): There is no confidentiality impact.''),
     (''P'',
      ''Partial (P): Access to some information is possible, but the attacker does not have control over what information is compromised.''),
     (''C'',
      ''Complete (C): All information on the system is compromised.'')]"

definition integrityv2 :: "(string \<times> string) list" where
  "integrityv2 =
    [(''N'',
      ''None (N): There is no integrity impact.''),
     (''P'',
      ''Partial (P): Modification of some information is possible, but the attacker does not have control over what information is modified.''),
     (''C'',
      ''Complete (C): The integrity of the system is totally compromised, and the attacker may change any information at will.'')]"

definition availabilityv2 :: "(string \<times> string) list" where
  "availabilityv2 =
    [(''N'',
      ''None (N): There is no availablity impact.''),
     (''P'',
      ''Partial (P): The performance of the system is degraded.''),
     (''C'',
      ''Complete (C): The system is completely shut down.'')]"

definition confidentialityv3 :: "(string \<times> string) list" where
  "confidentialityv3 =
    [(''H'',
      ''High (H): There is total loss of confidentiality, resulting in all resources within the impacted component being divulged to the attacker.''),
     (''L'',
      ''Low (L): There is some loss of confidentiality. Access to some restricted information is obtained, but the attacker does not have control over what information is obtained, or the amount or kind of loss is constrained.''),
     (''N'',
      ''None (N): There is no loss of confidentiality within the impacted component.'')]"

definition integrityv3 :: "(string \<times> string) list" where
  "integrityv3 =
    [(''H'',
      ''High (H): There is a total loss of integrity, or a complete loss of protection.''),
     (''L'',
      ''Low (L): Modification of data is possible, but the attacker does not have control over the consequence of a modification, or the amount of modification is constrained.''),
     (''N'',
      ''None (N): There is no loss of integrity within the impacted component.'')]"

definition availabilityv3 :: "(string \<times> string) list" where
  "availabilityv3 =
    [(''H'',
      ''High (H): There is total loss of availability, resulting in the attacker being able to fully deny access to resources in the impacted component; this loss is either sustained (while the attacker continues to deliver the attack) or persistent (the condition persists even after the attack has completed).''),
     (''L'',
      ''Low (L): There is reduced performance or interruptions in resource availability''),
     (''N'',
      ''None (N): There is no impact to availability within the impacted component.'')]"

section \<open>Cvss2 class definition\<close>

text \<open>The classes hold one field, \<open>score\<close>; the methods take it as their first argument.\<close>

definition split_metric :: "string \<Rightarrow> string \<times> string" where
  \<comment> \<open>key and value of the comprehension:
      \<open>score[:score.rfind(':')] : score[score.rfind(':') + 1:]\<close>\<close>
  "split_metric score =
     (py_slice_to score (py_rfind score CHR '':''),
      py_slice_from score (py_rfind score CHR '':'' + 1))"

definition dict_comprehension :: "string list \<Rightarrow> (string, string) pydict" where
  "dict_comprehension score_metrics =
     fold (\<lambda>score d. dict_set d (fst (split_metric score)) (snd (split_metric score)))
       score_metrics []"

definition Cvss2_parse_score :: "string \<Rightarrow> py_error + (string, string) pydict" where
  \<comment> \<open>no operation of the body can raise\<close>
  "Cvss2_parse_score score =
     (let score_metrics = py_split (py_slice_from score 6) CHR ''/'';
          score_dict = dict_comprehension score_metrics
      in Inr score_dict)"

definition Cvss2_check_definition :: "string \<Rightarrow> string \<Rightarrow> py_error + string" where
  "Cvss2_check_definition identifier value =
     (if identifier = ''av'' then py_getitem access_vector value
      else if identifier = ''ac'' then py_getitem access_complexitiyv2 value
      else if identifier = ''au'' then py_getitem authentication value
      else if identifier = ''c'' then py_getitem confidentialityv2 value
      else if identifier = ''i'' then py_getitem integrityv2 value
      else py_getitem availabilityv2 value)"

fun Cvss2_determine_loop ::
  "(string \<times> string) list \<Rightarrow> (string, string) pydict \<Rightarrow> py_error + (string, string) pydict"
where
  "Cvss2_determine_loop [] metric_definitions = Inr metric_definitions"
| "Cvss2_determine_loop ((identifier, value) # items) metric_definitions =
     (case Cvss2_check_definition (lower identifier) value of
        Inl e \<Rightarrow> Inl e
      | Inr d \<Rightarrow> Cvss2_determine_loop items (dict_set metric_definitions identifier d))"

definition Cvss2_determine_metrics ::
  "(string, string) pydict \<Rightarrow> py_error + (string, string) pydict" where
  "Cvss2_determine_metrics score_dict = Cvss2_determine_loop score_dict []"

section \<open>Cvss3 class definition\<close>

definition Cvss3_parse_score :: "string \<Rightarrow> py_error + (string, string) pydict" where
  \<comment> \<open>no operation of the body can raise\<close>
  "Cvss3_parse_score score =
     (let score_metrics = py_split (py_slice_from score (py_find score CHR ''/'' + 1)) CHR ''/'';
          score_dict = dict_comprehension score_metrics
      in Inr score_dict)"

definition Cvss3_check_definition :: "string \<Rightarrow> string \<Rightarrow> py_error + string" where
  "Cvss3_check_definition identifier value =
     (if identifier = ''av'' then py_getitem access_vector value
      else if identifier = ''ac'' then py_getitem access_complexitiyv3 value
      else if identifier = ''pr'' then py_getitem privileges_required value
      else if identifier = ''ui'' then py_getitem user_interaction value
      else if identifier = ''s'' then py_getitem scope value
      else if identifier = ''c'' then py_getitem confidentialityv3 value
      else if identifier = ''i'' then py_getitem integrityv3 value
      else py_getitem availabilityv3 value)"

fun Cvss3_determine_loop ::
  "(string \<times> string) list \<Rightarrow> (string, string) pydict \<Rightarrow> py_error + (string, string) pydict"
where
  "Cvss3_determine_loop [] metric_definitions = Inr metric_definitions"
| "Cvss3_determine_loop ((identifier, value) # items) metric_definitions =
     (case Cvss3_check_definition (lower identifier) value of
        Inl e \<Rightarrow> Inl e
      | Inr d \<Rightarrow> Cvss3_determine_loop items (dict_set metric_definitions identifier d))"

definition Cvss3_determine_metrics ::
  "(string, string) pydict \<Rightarrow> py_error + (string, string) pydict" where
  "Cvss3_determine_metrics score_dict = Cvss3_determine_loop score_dict []"

section \<open>main\<close>

text \<open>
  \<open>main\<close> after the argument count check, from the trimmed argument \<open>cvss_score\<close> to
  \<open>results\<close>: the class is chosen by \<open>'2' in cvss_score[:6]\<close>.
\<close>

datatype cvss_instance = Cvss2 (score: string) | Cvss3 (score: string)

definition main_instance :: "string \<Rightarrow> cvss_instance" where
  "main_instance cvss_score =
     (if CHR ''2'' \<in> set (py_slice_to cvss_score 6) then Cvss2 cvss_score
      else Cvss3 cvss_score)"

fun parse_score :: "cvss_instance \<Rightarrow> py_error + (string, string) pydict" where
  "parse_score (Cvss2 s) = Cvss2_parse_score s"
| "parse_score (Cvss3 s) = Cvss3_parse_score s"

fun determine_metrics ::
  "cvss_instance \<Rightarrow> (string, string) pydict \<Rightarrow> py_error + (string, string) pydict" where
  "determine_metrics (Cvss2 s) score_dict = Cvss2_determine_metrics score_dict"
| "determine_metrics (Cvss3 s) score_dict = Cvss3_determine_metrics score_dict"

definition main_results :: "string \<Rightarrow> py_error + (string, string) pydict" where
  "main_results cvss_score =
     (let inst = main_instance cvss_score in
      case parse_score inst of
        Inl e \<Rightarrow> Inl e
      | Inr score_dict \<Rightarrow> determine_metrics inst score_dict)"

section \<open>Specification vocabulary\<close>

text \<open>
  \<open>sep.join(segments)\<close>, the inverse of \<open>split\<close>: it states which string a list of
  segments comes from.
\<close>

fun py_join :: "char \<Rightarrow> string list \<Rightarrow> string" where
  "py_join sep [] = []"
| "py_join sep [x] = x"
| "py_join sep (x # y # ys) = x @ sep # py_join sep (y # ys)"

text \<open>
  The table that \<open>check_definition\<close> indexes for an identifier, branch by branch of its
  \<open>if\<close> chain.
\<close>

definition Cvss2_table :: "string \<Rightarrow> (string, string) pydict" where
  "Cvss2_table identifier =
     (if identifier = ''av'' then access_vector
      else if identifier = ''ac'' then access_complexitiyv2
      else if identifier = ''au'' then authentication
      else if identifier = ''c'' then confidentialityv2
      else if identifier = ''i'' then integrityv2
      else availabilityv2)"

definition Cvss3_table :: "string \<Rightarrow> (string, string) pydict" where
  "Cvss3_table identifier =
     (if identifier = ''av'' then access_vector
      else if identifier = ''ac'' then access_complexitiyv3
      else if identifier = ''pr'' then privileges_required
      else if identifier = ''ui'' then user_interaction
      else if identifier = ''s'' then scope
      else if identifier = ''c'' then confidentialityv3
      else if identifier = ''i'' then integrityv3
      else availabilityv3)"

section \<open>Slices, find and split\<close>

lemma slice_index_nonneg: "0 \<le> i \<Longrightarrow> slice_index s i = min (nat i) (length s)"
  by (cases "i \<le> int (length s)") (simp_all add: slice_index_def Let_def min_def nat_le_iff)

lemma py_slice_from_nonneg: "0 \<le> i \<Longrightarrow> py_slice_from s i = drop (nat i) s"
  by (simp add: py_slice_from_def slice_index_nonneg min_def)

lemma py_slice_to_nonneg: "0 \<le> i \<Longrightarrow> py_slice_to s i = take (nat i) s"
  by (simp add: py_slice_to_def slice_index_nonneg min_def)

lemma py_slice_to_minus_one: "py_slice_to s (- 1) = butlast s"
proof -
  have "nat (int (length s) - 1) = length s - 1" by arith
  then show ?thesis
    by (cases "s = []") (simp_all add: py_slice_to_def slice_index_def butlast_conv_take)
qed

lemma py_split_not_Nil: "py_split s sep \<noteq> []"
  by (induction s) (simp_all add: Let_def)

lemma py_split_no_sep: "seg \<in> set (py_split s sep) \<Longrightarrow> sep \<notin> set seg"
proof (induction s arbitrary: seg)
  case Nil
  then show ?case by simp
next
  case (Cons c cs)
  obtain x xs where r: "py_split cs sep = x # xs"
    using py_split_not_Nil [of cs sep] by (cases "py_split cs sep") auto
  show ?case
  proof (cases "c = sep")
    case True
    with Cons show ?thesis by auto
  next
    case False
    with Cons.prems r have "seg = c # x \<or> seg \<in> set xs" by simp
    with Cons.IH r False show ?thesis by auto
  qed
qed

lemma py_split_single: "sep \<notin> set a \<Longrightarrow> py_split a sep = [a]"
  by (induction a) (auto simp: Let_def)

lemma py_split_append: "sep \<notin> set a \<Longrightarrow> py_split (a @ sep # r) sep = a # py_split r sep"
  by (induction a) (auto simp: Let_def)

lemma py_join_py_split: "py_join sep (py_split s sep) = s"
proof (induction s)
  case Nil
  then show ?case by simp
next
  case (Cons c cs)
  obtain x xs where r: "py_split cs sep = x # xs"
    using py_split_not_Nil [of cs sep] by (cases "py_split cs sep") auto
  with Cons show ?case by (cases xs) (auto simp: Let_def)
qed

lemma py_split_py_join:
  "segs \<noteq> [] \<Longrightarrow> \<forall>seg\<in>set segs. sep \<notin> set seg \<Longrightarrow> py_split (py_join sep segs) sep = segs"
proof (induction sep segs rule: py_join.induct)
  case (3 sep x y ys)
  then show ?case by (simp add: py_split_append)
qed (simp_all add: py_split_single)

lemma py_rfind_last: "c \<notin> set v \<Longrightarrow> py_rfind (k @ c # v) c = int (length k)"
proof -
  assume "c \<notin> set v"
  then have "takeWhile (\<lambda>x. x \<noteq> c) (rev v @ c # rev k) = rev v"
    by (auto simp: takeWhile_tail)
  then show ?thesis by (simp add: py_rfind_def)
qed

lemma py_rfind_absent: "c \<notin> set s \<Longrightarrow> py_rfind s c = - 1"
  by (simp add: py_rfind_def)

lemma py_find_first: "c \<notin> set p \<Longrightarrow> py_find (p @ c # r) c = int (length p)"
proof -
  assume "c \<notin> set p"
  then have "takeWhile (\<lambda>x. x \<noteq> c) p = p"
    by (induction p) auto
  then show ?thesis by (simp add: py_find_def takeWhile_tail)
qed

lemma py_find_absent: "c \<notin> set s \<Longrightarrow> py_find s c = - 1"
  by (simp add: py_find_def)

lemma py_find_bounds: "- 1 \<le> py_find s c \<and> py_find s c < int (length s)"
proof (cases "c \<in> set s")
  case True
  then have "length (takeWhile (\<lambda>x. x \<noteq> c) s) < length s"
    by (induction s) auto
  with True show ?thesis by (simp add: py_find_def)
next
  case False
  then show ?thesis by (simp add: py_find_def)
qed

lemma split_metric_last_colon:
  "CHR '':'' \<notin> set v \<Longrightarrow> split_metric (k @ CHR '':'' # v) = (k, v)"
  by (simp add: split_metric_def py_rfind_last py_slice_to_nonneg py_slice_from_nonneg nat_add_distrib)

lemma split_metric_no_colon:
  "CHR '':'' \<notin> set seg \<Longrightarrow> split_metric seg = (butlast seg, seg)"
  by (simp add: split_metric_def py_rfind_absent py_slice_to_minus_one py_slice_from_nonneg)

lemma map_of_dict_set: "map_of (dict_set d k v) = (map_of d)(k \<mapsto> v)"
  by (induction d) (auto simp: fun_eq_iff)

lemma keys_dict_set:
  "map fst (dict_set d k v) = (if k \<in> set (map fst d) then map fst d else map fst d @ [k])"
  by (induction d) (force split: if_splits)+

lemma distinct_dict_set: "distinct (map fst d) \<Longrightarrow> distinct (map fst (dict_set d k v))"
  by (simp add: keys_dict_set)

lemma fold_dict_set_map_of:
  "map_of (fold (\<lambda>x d. dict_set d (fst (f x)) (snd (f x))) xs d) = map_of (rev (map f xs) @ d)"
proof (induction xs arbitrary: d)
  case Nil
  then show ?case by simp
next
  case (Cons x xs)
  have "map_of (rev (map f xs) @ dict_set d (fst (f x)) (snd (f x)))
      = map_of (rev (map f xs) @ f x # d)"
    by (simp add: map_of_append map_of_dict_set fun_eq_iff map_add_def split: option.splits)
  with Cons show ?case by simp
qed

lemma fold_dict_set_distinct:
  "distinct (map fst d) \<Longrightarrow>
   distinct (map fst (fold (\<lambda>x d. dict_set d (fst (f x)) (snd (f x))) xs d))"
  by (induction xs arbitrary: d) (simp_all add: distinct_dict_set)

lemma dict_comprehension_map_of:
  "map_of (dict_comprehension segs) = map_of (rev (map split_metric segs))"
  using fold_dict_set_map_of [of split_metric segs "[]"] by (simp add: dict_comprehension_def)

lemma dict_comprehension_distinct: "distinct (map fst (dict_comprehension segs))"
  by (simp add: dict_comprehension_def fold_dict_set_distinct)

lemma py_slice_to_six: "py_slice_to s 6 = take 6 s"
  by (simp add: py_slice_to_nonneg)

lemma py_slice_from_six: "py_slice_from s 6 = drop 6 s"
  by (simp add: py_slice_from_nonneg)

lemma Cvss3_remainder_slash:
  "CHR ''/'' \<notin> set p \<Longrightarrow>
   py_slice_from (p @ CHR ''/'' # r) (py_find (p @ CHR ''/'' # r) CHR ''/'' + 1) = r"
  by (simp add: py_find_first py_slice_from_nonneg nat_add_distrib)

lemma Cvss3_remainder_no_slash:
  "CHR ''/'' \<notin> set s \<Longrightarrow> py_slice_from s (py_find s CHR ''/'' + 1) = s"
  by (simp add: py_find_absent py_slice_from_nonneg)

section \<open>The dictionary built by the comprehension\<close>

lemma dict_set_new: "k \<notin> set (map fst d) \<Longrightarrow> dict_set d k v = d @ [(k, v)]"
  by (induction d) auto

lemma fold_dict_set_distinct_keys:
  "distinct (map fst d @ map (\<lambda>x. fst (f x)) xs) \<Longrightarrow>
   fold (\<lambda>x d. dict_set d (fst (f x)) (snd (f x))) xs d = d @ map f xs"
proof (induction xs arbitrary: d)
  case Nil
  then show ?case by simp
next
  case (Cons x xs)
  from Cons.prems have new: "fst (f x) \<notin> set (map fst d)" by auto
  from Cons.prems have "distinct (map fst (d @ [f x]) @ map (\<lambda>x. fst (f x)) xs)" by auto
  then have "fold (\<lambda>x d. dict_set d (fst (f x)) (snd (f x))) xs (d @ [f x]) = (d @ [f x]) @ map f xs"
    by (rule Cons.IH)
  with new show ?case by (simp add: dict_set_new)
qed

lemma dict_comprehension_distinct_keys:
  "distinct (map (\<lambda>seg. fst (split_metric seg)) segs) \<Longrightarrow>
   dict_comprehension segs = map split_metric segs"
  using fold_dict_set_distinct_keys [of "[]" split_metric segs]
  by (simp add: dict_comprehension_def)

lemma dict_comprehension_last_wins:
  assumes "j < length segs"
      and "\<forall>m. j < m \<and> m < length segs \<longrightarrow> fst (split_metric (segs ! m)) \<noteq> fst (split_metric (segs ! j))"
  shows "map_of (dict_comprehension segs) (fst (split_metric (segs ! j)))
         = Some (snd (split_metric (segs ! j)))"
proof -
  let ?k = "fst (split_metric (segs ! j))"
  have segs: "segs = take j segs @ segs ! j # drop (Suc j) segs"
    using assms(1) by (simp add: id_take_nth_drop)
  have "?k \<notin> fst ` set (map split_metric (drop (Suc j) segs))"
  proof
    assume "?k \<in> fst ` set (map split_metric (drop (Suc j) segs))"
    then obtain seg where "seg \<in> set (drop (Suc j) segs)" "fst (split_metric seg) = ?k"
      by auto
    then obtain n where "n < length (drop (Suc j) segs)" "drop (Suc j) segs ! n = seg"
      by (auto simp: in_set_conv_nth)
    with assms(1) have "Suc j + n < length segs" "segs ! (Suc j + n) = seg" by auto
    with assms(2) \<open>fst (split_metric seg) = ?k\<close> show False by auto
  qed
  then have none: "map_of (rev (map split_metric (drop (Suc j) segs))) ?k = None"
    by (simp add: map_of_eq_None_iff)
  have "map_of (rev (map split_metric segs)) ?k
      = map_of (rev (map split_metric (drop (Suc j) segs)) @
          split_metric (segs ! j) # rev (map split_metric (take j segs))) ?k"
    by (subst segs) simp
  also have "\<dots> = Some (snd (split_metric (segs ! j)))"
    using none by (simp add: map_of_append map_add_def)
  finally show ?thesis by (simp add: dict_comprehension_map_of)
qed

lemma distinct_keys_filter:
  "distinct (map fst d) \<Longrightarrow> map_of d k = Some v \<Longrightarrow> filter (\<lambda>(k', v'). k' = k) d = [(k, v)]"
proof (induction d)
  case Nil
  then show ?case by simp
next
  case (Cons p d)
  obtain k' v' where p: "p = (k', v')" by (cases p)
  show ?case
  proof (cases "k' = k")
    case True
    with Cons.prems p have "k \<notin> fst ` set d" "v' = v" by auto
    then have "filter (\<lambda>(k', v'). k' = k) d = []" by (force simp: filter_empty_conv)
    with True p \<open>v' = v\<close> show ?thesis by simp
  next
    case False
    with Cons p show ?thesis by simp
  qed
qed

section \<open>The resolver loops\<close>

lemma Cvss2_check_definition_table:
  "Cvss2_check_definition identifier value = py_getitem (Cvss2_table identifier) value"
  by (simp add: Cvss2_check_definition_def Cvss2_table_def)

lemma Cvss3_check_definition_table:
  "Cvss3_check_definition identifier value = py_getitem (Cvss3_table identifier) value"
  by (simp add: Cvss3_check_definition_def Cvss3_table_def)

lemma py_getitem_absent: "k \<notin> fst ` set table \<Longrightarrow> py_getitem table k = Inl (KeyError k)"
proof -
  assume "k \<notin> fst ` set table"
  then have "map_of table k = None" by (simp add: map_of_eq_None_iff)
  then show ?thesis by (simp add: py_getitem_def)
qed

lemma py_getitem_present: "map_of table k = Some v \<Longrightarrow> py_getitem table k = Inr v"
  by (simp add: py_getitem_def)

lemma Cvss2_determine_loop_fails:
  "(k, v) \<in> set items \<Longrightarrow> Cvss2_check_definition (lower k) v = Inl e \<Longrightarrow>
   \<exists>e'. Cvss2_determine_loop items md = Inl e'"
  by (induction items md rule: Cvss2_determine_loop.induct) (auto split: sum.splits)

lemma Cvss3_determine_loop_fails:
  "(k, v) \<in> set items \<Longrightarrow> Cvss3_check_definition (lower k) v = Inl e \<Longrightarrow>
   \<exists>e'. Cvss3_determine_loop items md = Inl e'"
  by (induction items md rule: Cvss3_determine_loop.induct) (auto split: sum.splits)

lemma Cvss2_determine_loop_result:
  "Cvss2_determine_loop items md = Inr r \<Longrightarrow> distinct (map fst md @ map fst items) \<Longrightarrow>
   \<exists>r'. r = md @ r' \<and>
     list_all2 (\<lambda>(k, v) (k', d). k' = k \<and> Cvss2_check_definition (lower k) v = Inr d) items r'"
proof (induction items md rule: Cvss2_determine_loop.induct)
  case (1 md)
  then show ?case by simp
next
  case (2 ident val items md)
  from "2.prems"(1) obtain d where d: "Cvss2_check_definition (lower ident) val = Inr d"
    and loop: "Cvss2_determine_loop items (dict_set md ident d) = Inr r"
    by (auto split: sum.splits)
  from "2.prems"(2) have new: "dict_set md ident d = md @ [(ident, d)]"
    by (intro dict_set_new) auto
  from "2.prems"(2) have "distinct (map fst (dict_set md ident d) @ map fst items)"
    by (auto simp: new)
  with "2.IH" [OF d loop] obtain r' where "r = dict_set md ident d @ r'"
    and "list_all2 (\<lambda>(k, v) (k', d). k' = k \<and> Cvss2_check_definition (lower k) v = Inr d) items r'"
    by blast
  with new d show ?case by simp
qed

lemma Cvss3_determine_loop_result:
  "Cvss3_determine_loop items md = Inr r \<Longrightarrow> distinct (map fst md @ map fst items) \<Longrightarrow>
   \<exists>r'. r = md @ r' \<and>
     list_all2 (\<lambda>(k, v) (k', d). k' = k \<and> Cvss3_check_definition (lower k) v = Inr d) items r'"
proof (induction items md rule: Cvss3_determine_loop.induct)
  case (1 md)
  then show ?case by simp
next
  case (2 ident val items md)
  from "2.prems"(1) obtain d where d: "Cvss3_check_definition (lower ident) val = Inr d"
    and loop: "Cvss3_determine_loop items (dict_set md ident d) = Inr r"
    by (auto split: sum.splits)
  from "2.prems"(2) have new: "dict_set md ident d = md @ [(ident, d)]"
    by (intro dict_set_new) auto
  from "2.prems"(2) have "distinct (map fst (dict_set md ident d) @ map fst items)"
    by (auto simp: new)
  with "2.IH" [OF d loop] obtain r' where "r = dict_set md ident d @ r'"
    and "list_all2 (\<lambda>(k, v) (k', d). k' = k \<and> Cvss3_check_definition (lower k) v = Inr d) items r'"
    by blast
  with new d show ?case by simp
qed

lemma list_all2_keys:
  "list_all2 (\<lambda>(k, v) (k', d). k' = k \<and> P k v d) items r \<Longrightarrow> map fst r = map fst items"
  by (induction items r rule: list_all2_induct) auto

section \<open>The parsers\<close>

lemma split_metric_pairs:
  assumes "\<forall>(k, v)\<in>set pairs. CHR '':'' \<notin> set v"
  shows "map split_metric (map (\<lambda>(k, v). k @ CHR '':'' # v) pairs) = pairs"
  using assms by (induction pairs) (auto simp: split_metric_last_colon)

lemma py_split_pairs:
  assumes "pairs \<noteq> []"
      and "\<forall>(k, v)\<in>set pairs. CHR ''/'' \<notin> set k \<and> CHR ''/'' \<notin> set v"
  shows "py_split (py_join CHR ''/'' (map (\<lambda>(k, v). k @ CHR '':'' # v) pairs)) CHR ''/''
         = map (\<lambda>(k, v). k @ CHR '':'' # v) pairs"
proof -
  let ?segs = "map (\<lambda>(k, v). k @ CHR '':'' # v) pairs"
  have "?segs \<noteq> []" using assms(1) by simp
  moreover have "\<forall>seg\<in>set ?segs. CHR ''/'' \<notin> set seg" using assms(2) by auto
  ultimately show ?thesis by (rule py_split_py_join)
qed

lemma dict_comprehension_not_Nil: "segs \<noteq> [] \<Longrightarrow> dict_comprehension segs \<noteq> []"
proof -
  assume "segs \<noteq> []"
  then have "map_of (rev (map split_metric segs)) (fst (split_metric (last segs))) \<noteq> None"
    by (simp add: map_of_eq_None_iff image_iff) (metis last_in_set)
  then have "map_of (dict_comprehension segs) \<noteq> Map.empty"
    by (metis dict_comprehension_map_of)
  then show ?thesis by auto
qed

text \<open>
  C3. For every version-2 input string, \<open>Cvss2.parse_score\<close> discards exactly the first 6
  characters, splits the remainder on \<open>/\<close>, and splits each segment at its last colon into
  an identifier (the text before the last colon) and a value (the text after it),
  returning the identifier-to-value mapping: when the string after its first 6
  characters is the \<open>/\<close>-joined list of the segments \<open>identifier:value\<close> of some pairs
  whose values hold no colon, the result is a dictionary with unique keys that binds
  each identifier as these pairs do, a later pair overriding an earlier one.
\<close>

theorem Cvss2_parse_score_last_colon:
  assumes "pairs \<noteq> []"
      and "\<forall>(identifier, value)\<in>set pairs.
             CHR ''/'' \<notin> set identifier \<and> CHR ''/'' \<notin> set value \<and> CHR '':'' \<notin> set value"
      and "drop 6 s =
             py_join CHR ''/'' (map (\<lambda>(identifier, value). identifier @ CHR '':'' # value) pairs)"
  shows "\<exists>score_dict. Cvss2_parse_score s = Inr score_dict \<and> distinct (map fst score_dict) \<and>
           map_of score_dict = map_of (rev pairs)"
proof -
  let ?segs = "map (\<lambda>(identifier, value). identifier @ CHR '':'' # value) pairs"
  have "py_split (py_join CHR ''/'' ?segs) CHR ''/'' = ?segs"
    using assms(1,2) by (intro py_split_pairs) auto
  with assms(3) have segs: "py_split (py_slice_from s 6) CHR ''/'' = ?segs"
    by (simp add: py_slice_from_six)
  have "map split_metric ?segs = pairs"
    using assms(2) by (intro split_metric_pairs) auto
  with segs show ?thesis
    by (simp add: Cvss2_parse_score_def dict_comprehension_distinct dict_comprehension_map_of)
qed

theorem Cvss2_parse_score_last_colon_witness:
  "[(''AV'', ''N''), (''b:c'', ''L'')] \<noteq> [] \<and>
   CHR ''/'' \<notin> set ''AV'' \<and> CHR ''/'' \<notin> set ''N'' \<and> CHR '':'' \<notin> set ''N'' \<and>
   CHR ''/'' \<notin> set ''b:c'' \<and> CHR ''/'' \<notin> set ''L'' \<and> CHR '':'' \<notin> set ''L'' \<and>
   drop 6 ''CVSS2#AV:N/b:c:L'' =
     py_join CHR ''/'' (map (\<lambda>(identifier, value). identifier @ CHR '':'' # value)
       [(''AV'', ''N''), (''b:c'', ''L'')]) \<and>
   (\<exists>score_dict. Cvss2_parse_score ''CVSS2#AV:N/b:c:L'' = Inr score_dict \<and>
      distinct (map fst score_dict) \<and>
      map_of score_dict = map_of (rev [(''AV'', ''N''), (''b:c'', ''L'')]))"
proof -
  have h1: "[(''AV'', ''N''), (''b:c'', ''L'')] \<noteq> []" by simp
  have h2: "\<forall>(identifier, value)\<in>set [(''AV'', ''N''), (''b:c'', ''L'')].
      CHR ''/'' \<notin> set identifier \<and> CHR ''/'' \<notin> set value \<and> CHR '':'' \<notin> set value"
    by simp
  have h3: "drop 6 ''CVSS2#AV:N/b:c:L'' =
     py_join CHR ''/'' (map (\<lambda>(identifier, value). identifier @ CHR '':'' # value)
       [(''AV'', ''N''), (''b:c'', ''L'')])"
    by simp
  note c = Cvss2_parse_score_last_colon [OF h1 h2 h3]
  show ?thesis by (intro conjI c h1 h3) simp_all
qed

text \<open>
  C4. For every version-3 input string, \<open>Cvss3.parse_score\<close> discards everything up to and
  including the first \<open>/\<close>, splits the remainder on \<open>/\<close>, and splits each segment at its
  last colon into an identifier and a value, returning the identifier-to-value mapping:
  when the string is a label without \<open>/\<close>, a \<open>/\<close>, and the \<open>/\<close>-joined list of the
  segments \<open>identifier:value\<close> of some pairs whose values hold no colon, the result is a
  dictionary with unique keys that binds each identifier as these pairs do, a later pair
  overriding an earlier one.
\<close>

theorem Cvss3_parse_score_last_colon:
  assumes "pairs \<noteq> []"
      and "\<forall>(identifier, value)\<in>set pairs.
             CHR ''/'' \<notin> set identifier \<and> CHR ''/'' \<notin> set value \<and> CHR '':'' \<notin> set value"
      and "CHR ''/'' \<notin> set label"
      and "s = label @ CHR ''/'' #
             py_join CHR ''/'' (map (\<lambda>(identifier, value). identifier @ CHR '':'' # value) pairs)"
  shows "\<exists>score_dict. Cvss3_parse_score s = Inr score_dict \<and> distinct (map fst score_dict) \<and>
           map_of score_dict = map_of (rev pairs)"
proof -
  let ?segs = "map (\<lambda>(identifier, value). identifier @ CHR '':'' # value) pairs"
  have "py_split (py_join CHR ''/'' ?segs) CHR ''/'' = ?segs"
    using assms(1,2) by (intro py_split_pairs) auto
  with assms(3,4) have segs:
    "py_split (py_slice_from s (py_find s CHR ''/'' + 1)) CHR ''/'' = ?segs"
    by (simp add: Cvss3_remainder_slash)
  have "map split_metric ?segs = pairs"
    using assms(2) by (intro split_metric_pairs) auto
  with segs show ?thesis
    by (simp add: Cvss3_parse_score_def dict_comprehension_distinct dict_comprehension_map_of)
qed

theorem Cvss3_parse_score_last_colon_witness:
  "[(''AV'', ''N''), (''x:y'', ''H'')] \<noteq> [] \<and>
   CHR ''/'' \<notin> set ''AV'' \<and> CHR ''/'' \<notin> set ''N'' \<and> CHR '':'' \<notin> set ''N'' \<and>
   CHR ''/'' \<notin> set ''x:y'' \<and> CHR ''/'' \<notin> set ''H'' \<and> CHR '':'' \<notin> set ''H'' \<and>
   CHR ''/'' \<notin> set ''CVSS:3.1'' \<and>
   ''CVSS:3.1/AV:N/x:y:H'' = ''CVSS:3.1'' @ CHR ''/'' #
     py_join CHR ''/'' (map (\<lambda>(identifier, value). identifier @ CHR '':'' # value)
       [(''AV'', ''N''), (''x:y'', ''H'')]) \<and>
   (\<exists>score_dict. Cvss3_parse_score ''CVSS:3.1/AV:N/x:y:H'' = Inr score_dict \<and>
      distinct (map fst score_dict) \<and>
      map_of score_dict = map_of (rev [(''AV'', ''N''), (''x:y'', ''H'')]))"
proof -
  have h1: "[(''AV'', ''N''), (''x:y'', ''H'')] \<noteq> []" by simp
  have h2: "\<forall>(identifier, value)\<in>set [(''AV'', ''N''), (''x:y'', ''H'')].
      CHR ''/'' \<notin> set identifier \<and> CHR ''/'' \<notin> set value \<and> CHR '':'' \<notin> set value"
    by simp
  have h3: "CHR ''/'' \<notin> set ''CVSS:3.1''" by simp
  have h4: "''CVSS:3.1/AV:N/x:y:H'' = ''CVSS:3.1'' @ CHR ''/'' #
     py_join CHR ''/'' (map (\<lambda>(identifier, value). identifier @ CHR '':'' # value)
       [(''AV'', ''N''), (''x:y'', ''H'')])"
    by simp
  note c = Cvss3_parse_score_last_colon [OF h1 h2 h3 h4]
  show ?thesis by (intro conjI c h1 h3 h4) simp_all
qed

lemma Cvss2_parse_score_segment:
  assumes "length label = 6" and "CHR ''/'' \<notin> set seg"
  shows "Cvss2_parse_score (label @ seg) = Inr [split_metric seg]"
  using assms
  by (simp add: Cvss2_parse_score_def py_slice_from_six py_split_single dict_comprehension_def)

lemma Cvss3_parse_score_segment:
  assumes "CHR ''/'' \<notin> set label" and "CHR ''/'' \<notin> set seg"
  shows "Cvss3_parse_score (label @ CHR ''/'' # seg) = Inr [split_metric seg]"
  using assms
  by (simp add: Cvss3_parse_score_def Cvss3_remainder_slash py_split_single
      dict_comprehension_def)

lemma Cvss3_parse_score_no_slash:
  "CHR ''/'' \<notin> set s \<Longrightarrow> Cvss3_parse_score s = Inr [split_metric s]"
  by (simp add: Cvss3_parse_score_def Cvss3_remainder_no_slash py_split_single
      dict_comprehension_def)

lemma dict_comprehension_no_colon:
  assumes "j < length segs" and "CHR '':'' \<notin> set (segs ! j)"
      and "\<not> (\<exists>m. j < m \<and> m < length segs \<and>
             fst (split_metric (segs ! m)) = butlast (segs ! j))"
  shows "filter (\<lambda>(k, v). k = butlast (segs ! j)) (dict_comprehension segs)
         = [(butlast (segs ! j), segs ! j)]"
proof -
  have sm: "split_metric (segs ! j) = (butlast (segs ! j), segs ! j)"
    using assms(2) by (rule split_metric_no_colon)
  from assms(3) sm
  have "\<forall>m. j < m \<and> m < length segs \<longrightarrow>
          fst (split_metric (segs ! m)) \<noteq> fst (split_metric (segs ! j))"
    by auto
  with assms(1)
  have "map_of (dict_comprehension segs) (fst (split_metric (segs ! j)))
        = Some (snd (split_metric (segs ! j)))"
    by (rule dict_comprehension_last_wins)
  then have "map_of (dict_comprehension segs) (butlast (segs ! j)) = Some (segs ! j)"
    by (simp add: sm)
  with dict_comprehension_distinct [of segs] show ?thesis
    by (rule distinct_keys_filter)
qed

lemma Cvss2_parse_score_segments:
  assumes "segs \<noteq> []" and "\<forall>x\<in>set segs. CHR ''/'' \<notin> set x"
      and "drop 6 s = py_join CHR ''/'' segs"
  shows "Cvss2_parse_score s = Inr (dict_comprehension segs)"
proof -
  have "py_split (py_join CHR ''/'' segs) CHR ''/'' = segs"
    using assms(1,2) by (rule py_split_py_join)
  with assms(3) show ?thesis
    by (simp add: Cvss2_parse_score_def py_slice_from_six)
qed

lemma Cvss3_parse_score_segments:
  assumes "segs \<noteq> []" and "\<forall>x\<in>set segs. CHR ''/'' \<notin> set x"
      and "CHR ''/'' \<notin> set label"
      and "s = label @ CHR ''/'' # py_join CHR ''/'' segs"
  shows "Cvss3_parse_score s = Inr (dict_comprehension segs)"
proof -
  have "py_split (py_join CHR ''/'' segs) CHR ''/'' = segs"
    using assms(1,2) by (rule py_split_py_join)
  with assms(3,4) show ?thesis
    by (simp add: Cvss3_parse_score_def Cvss3_remainder_slash)
qed

text \<open>
  C9. \<open>parse_score\<close> (v2 and v3) is total: it returns a mapping and never raises, for
  any input string. For a segment with no colon, \<open>rfind\<close> returns \<open>-1\<close> and the last-colon
  split gives the segment minus its final character as the identifier and the entire
  segment as the value: wherever such a segment stands among the \<open>/\<close>-separated segments
  of a vector, if no later segment yields the same identifier, the mapping returned has
  exactly one entry under the segment minus its final character, and its value is the
  entire segment. A version-3 string without \<open>/\<close> is one segment as a whole, and a v2
  input shorter than 6 characters parses to the mapping of the empty string to the
  empty string.
\<close>

theorem parse_score_total:
  "(\<exists>score_dict. Cvss2_parse_score s = Inr score_dict) \<and>
   (\<exists>score_dict. Cvss3_parse_score s = Inr score_dict) \<and>
   (CHR '':'' \<notin> set seg \<longrightarrow>
      py_rfind seg CHR '':'' = - 1 \<and> split_metric seg = (butlast seg, seg)) \<and>
   (segs \<noteq> [] \<and> (\<forall>x\<in>set segs. CHR ''/'' \<notin> set x) \<and>
    j < length segs \<and> CHR '':'' \<notin> set (segs ! j) \<and>
    \<not> (\<exists>m. j < m \<and> m < length segs \<and>
           fst (split_metric (segs ! m)) = butlast (segs ! j)) \<longrightarrow>
      (drop 6 s = py_join CHR ''/'' segs \<longrightarrow>
         (\<exists>score_dict. Cvss2_parse_score s = Inr score_dict \<and>
            filter (\<lambda>(k, v). k = butlast (segs ! j)) score_dict
              = [(butlast (segs ! j), segs ! j)])) \<and>
      (CHR ''/'' \<notin> set label3 \<and> s = label3 @ CHR ''/'' # py_join CHR ''/'' segs \<longrightarrow>
         (\<exists>score_dict. Cvss3_parse_score s = Inr score_dict \<and>
            filter (\<lambda>(k, v). k = butlast (segs ! j)) score_dict
              = [(butlast (segs ! j), segs ! j)]))) \<and>
   (CHR ''/'' \<notin> set s \<longrightarrow> Cvss3_parse_score s = Inr [split_metric s]) \<and>
   (CHR '':'' \<notin> set seg \<and> CHR ''/'' \<notin> set seg \<and> length label2 = 6 \<longrightarrow>
      Cvss2_parse_score (label2 @ seg) = Inr [(butlast seg, seg)]) \<and>
   (CHR '':'' \<notin> set seg \<and> CHR ''/'' \<notin> set seg \<and> CHR ''/'' \<notin> set label3 \<longrightarrow>
      Cvss3_parse_score (label3 @ CHR ''/'' # seg) = Inr [(butlast seg, seg)]) \<and>
   (length s < 6 \<longrightarrow> Cvss2_parse_score s = Inr [('''', '''')])"
proof (intro conjI impI)
  show "\<exists>score_dict. Cvss2_parse_score s = Inr score_dict"
    by (simp add: Cvss2_parse_score_def)
  show "\<exists>score_dict. Cvss3_parse_score s = Inr score_dict"
    by (simp add: Cvss3_parse_score_def)
  show "py_rfind seg CHR '':'' = - 1" if "CHR '':'' \<notin> set seg"
    using that by (rule py_rfind_absent)
  show "split_metric seg = (butlast seg, seg)" if "CHR '':'' \<notin> set seg"
    using that by (rule split_metric_no_colon)
  show "\<exists>score_dict. Cvss2_parse_score s = Inr score_dict \<and>
            filter (\<lambda>(k, v). k = butlast (segs ! j)) score_dict
              = [(butlast (segs ! j), segs ! j)]"
    if h: "segs \<noteq> [] \<and> (\<forall>x\<in>set segs. CHR ''/'' \<notin> set x) \<and>
      j < length segs \<and> CHR '':'' \<notin> set (segs ! j) \<and>
      \<not> (\<exists>m. j < m \<and> m < length segs \<and>
           fst (split_metric (segs ! m)) = butlast (segs ! j))"
      and v: "drop 6 s = py_join CHR ''/'' segs"
  proof -
    from h v have "Cvss2_parse_score s = Inr (dict_comprehension segs)"
      by (intro Cvss2_parse_score_segments) simp_all
    moreover from h
    have "filter (\<lambda>(k, v). k = butlast (segs ! j)) (dict_comprehension segs)
         = [(butlast (segs ! j), segs ! j)]"
      by (intro dict_comprehension_no_colon) simp_all
    ultimately show ?thesis by simp
  qed
  show "\<exists>score_dict. Cvss3_parse_score s = Inr score_dict \<and>
            filter (\<lambda>(k, v). k = butlast (segs ! j)) score_dict
              = [(butlast (segs ! j), segs ! j)]"
    if h: "segs \<noteq> [] \<and> (\<forall>x\<in>set segs. CHR ''/'' \<notin> set x) \<and>
      j < length segs \<and> CHR '':'' \<notin> set (segs ! j) \<and>
      \<not> (\<exists>m. j < m \<and> m < length segs \<and>
           fst (split_metric (segs ! m)) = butlast (segs ! j))"
      and v: "CHR ''/'' \<notin> set label3 \<and> s = label3 @ CHR ''/'' # py_join CHR ''/'' segs"
  proof -
    from h v have "Cvss3_parse_score s = Inr (dict_comprehension segs)"
      by (intro Cvss3_parse_score_segments [where label = label3]) simp_all
    moreover from h
    have "filter (\<lambda>(k, v). k = butlast (segs ! j)) (dict_comprehension segs)
         = [(butlast (segs ! j), segs ! j)]"
      by (intro dict_comprehension_no_colon) simp_all
    ultimately show ?thesis by simp
  qed
  show "Cvss3_parse_score s = Inr [split_metric s]" if "CHR ''/'' \<notin> set s"
    using that by (rule Cvss3_parse_score_no_slash)
  show "Cvss2_parse_score (label2 @ seg) = Inr [(butlast seg, seg)]"
    if "CHR '':'' \<notin> set seg \<and> CHR ''/'' \<notin> set seg \<and> length label2 = 6"
    using that by (simp add: Cvss2_parse_score_segment split_metric_no_colon)
  show "Cvss3_parse_score (label3 @ CHR ''/'' # seg) = Inr [(butlast seg, seg)]"
    if "CHR '':'' \<notin> set seg \<and> CHR ''/'' \<notin> set seg \<and> CHR ''/'' \<notin> set label3"
    using that by (simp add: Cvss3_parse_score_segment split_metric_no_colon)
  show "Cvss2_parse_score s = Inr [('''', '''')]" if "length s < 6"
  proof -
    have "split_metric [] = ([], [])"
      using split_metric_no_colon [of "[]"] by simp
    with that show ?thesis
      by (simp add: Cvss2_parse_score_def py_slice_from_six dict_comprehension_def)
  qed
qed

lemma split_metric_I_N: "split_metric ''I:N'' = (''I'', ''N'')"
  using split_metric_last_colon [of "''N''" "''I''"] by simp

theorem parse_score_total_witness:
  "[''C:P'', ''Au'', ''I:N''] \<noteq> [] \<and>
   CHR ''/'' \<notin> set ''C:P'' \<and> CHR ''/'' \<notin> set ''Au'' \<and> CHR ''/'' \<notin> set ''I:N'' \<and>
   (1::nat) < length [''C:P'', ''Au'', ''I:N''] \<and>
   CHR '':'' \<notin> set ([''C:P'', ''Au'', ''I:N''] ! 1) \<and>
   \<not> (\<exists>m. 1 < m \<and> m < length [''C:P'', ''Au'', ''I:N''] \<and>
          fst (split_metric ([''C:P'', ''Au'', ''I:N''] ! m))
            = butlast ([''C:P'', ''Au'', ''I:N''] ! 1)) \<and>
   drop 6 ''CVSS2#C:P/Au/I:N'' = py_join CHR ''/'' [''C:P'', ''Au'', ''I:N''] \<and>
   (\<exists>score_dict. Cvss2_parse_score ''CVSS2#C:P/Au/I:N'' = Inr score_dict \<and>
      filter (\<lambda>(k, v). k = ''A'') score_dict = [(''A'', ''Au'')]) \<and>
   CHR ''/'' \<notin> set ''CVSS:3.1'' \<and>
   ''CVSS:3.1/C:P/Au/I:N'' = ''CVSS:3.1'' @ CHR ''/'' # py_join CHR ''/'' [''C:P'', ''Au'', ''I:N''] \<and>
   (\<exists>score_dict. Cvss3_parse_score ''CVSS:3.1/C:P/Au/I:N'' = Inr score_dict \<and>
      filter (\<lambda>(k, v). k = ''A'') score_dict = [(''A'', ''Au'')]) \<and>
   CHR '':'' \<notin> set ''AV'' \<and> CHR ''/'' \<notin> set ''AV'' \<and> length ''CVSS2#'' = 6 \<and>
   length ''CVSS'' < 6 \<and> CHR ''/'' \<notin> set ''CVSS'' \<and>
   py_rfind ''AV'' CHR '':'' = - 1 \<and> split_metric ''AV'' = (''A'', ''AV'') \<and>
   Cvss2_parse_score ''CVSS2#AV'' = Inr [(''A'', ''AV'')] \<and>
   Cvss3_parse_score ''CVSS:3.1/AV'' = Inr [(''A'', ''AV'')] \<and>
   Cvss3_parse_score ''CVSS'' = Inr [(''CVS'', ''CVSS'')] \<and>
   Cvss2_parse_score ''CVSS'' = Inr [('''', '''')]"
proof -
  let ?segs = "[''C:P'', ''Au'', ''I:N'']"
  have last: "\<not> (\<exists>m. 1 < m \<and> m < length ?segs \<and>
          fst (split_metric (?segs ! m)) = butlast (?segs ! 1))"
  proof
    assume "\<exists>m. 1 < m \<and> m < length ?segs \<and>
          fst (split_metric (?segs ! m)) = butlast (?segs ! 1)"
    then obtain m where m: "1 < m" "m < length ?segs"
      and eq: "fst (split_metric (?segs ! m)) = butlast (?segs ! 1)"
      by blast
    from m have "m = 2" by simp
    with eq show False by (simp add: split_metric_I_N)
  qed
  have h: "?segs \<noteq> [] \<and> (\<forall>x\<in>set ?segs. CHR ''/'' \<notin> set x) \<and>
      1 < length ?segs \<and> CHR '':'' \<notin> set (?segs ! 1) \<and>
      \<not> (\<exists>m. 1 < m \<and> m < length ?segs \<and>
           fst (split_metric (?segs ! m)) = butlast (?segs ! 1))"
    using last by simp
  have v2: "drop 6 ''CVSS2#C:P/Au/I:N'' = py_join CHR ''/'' ?segs" by simp
  have v3: "CHR ''/'' \<notin> set ''CVSS:3.1'' \<and>
      ''CVSS:3.1/C:P/Au/I:N'' = ''CVSS:3.1'' @ CHR ''/'' # py_join CHR ''/'' ?segs"
    by simp
  have c2': "\<exists>score_dict. Cvss2_parse_score ''CVSS2#C:P/Au/I:N'' = Inr score_dict \<and>
      filter (\<lambda>(k, v). k = butlast (?segs ! 1)) score_dict = [(butlast (?segs ! 1), ?segs ! 1)]"
    using parse_score_total [where s = "''CVSS2#C:P/Au/I:N''" and segs = ?segs and j = 1
        and seg = "''AV''" and ?label2.0 = "''CVSS2#''" and ?label3.0 = "''CVSS:3.1''"] h v2
    by blast
  have c2: "\<exists>score_dict. Cvss2_parse_score ''CVSS2#C:P/Au/I:N'' = Inr score_dict \<and>
      filter (\<lambda>(k, v). k = ''A'') score_dict = [(''A'', ''Au'')]"
    using c2' by simp
  have c3': "\<exists>score_dict. Cvss3_parse_score ''CVSS:3.1/C:P/Au/I:N'' = Inr score_dict \<and>
      filter (\<lambda>(k, v). k = butlast (?segs ! 1)) score_dict = [(butlast (?segs ! 1), ?segs ! 1)]"
    using parse_score_total [where s = "''CVSS:3.1/C:P/Au/I:N''" and segs = ?segs and j = 1
        and seg = "''AV''" and ?label2.0 = "''CVSS2#''" and ?label3.0 = "''CVSS:3.1''"] h v3
    by blast
  have c3: "\<exists>score_dict. Cvss3_parse_score ''CVSS:3.1/C:P/Au/I:N'' = Inr score_dict \<and>
      filter (\<lambda>(k, v). k = ''A'') score_dict = [(''A'', ''Au'')]"
    using c3' by simp
  have p1: "CHR '':'' \<notin> set ''AV''" by simp
  have p2: "CHR '':'' \<notin> set ''AV'' \<and> CHR ''/'' \<notin> set ''AV'' \<and> length ''CVSS2#'' = 6"
    by simp
  have p3: "CHR '':'' \<notin> set ''AV'' \<and> CHR ''/'' \<notin> set ''AV'' \<and> CHR ''/'' \<notin> set ''CVSS:3.1''"
    by simp
  have p4: "length ''CVSS'' < 6" by simp
  have p5: "CHR ''/'' \<notin> set ''CVSS''" by simp
  have one: "py_rfind ''AV'' CHR '':'' = - 1 \<and>
   split_metric ''AV'' = (butlast ''AV'', ''AV'') \<and>
   Cvss2_parse_score (''CVSS2#'' @ ''AV'') = Inr [(butlast ''AV'', ''AV'')] \<and>
   Cvss3_parse_score (''CVSS:3.1'' @ CHR ''/'' # ''AV'') = Inr [(butlast ''AV'', ''AV'')] \<and>
   Cvss3_parse_score ''CVSS'' = Inr [split_metric ''CVSS''] \<and>
   Cvss2_parse_score ''CVSS'' = Inr [('''', '''')]"
    using parse_score_total [where s = "''CVSS''" and segs = ?segs and j = 1
        and seg = "''AV''" and ?label2.0 = "''CVSS2#''" and ?label3.0 = "''CVSS:3.1''"]
      p1 p2 p3 p4 p5
    by blast
  have sm: "split_metric ''CVSS'' = (''CVS'', ''CVSS'')"
    using split_metric_no_colon [of "''CVSS''"] by simp
  from one sm have one': "py_rfind ''AV'' CHR '':'' = - 1 \<and>
   split_metric ''AV'' = (''A'', ''AV'') \<and>
   Cvss2_parse_score ''CVSS2#AV'' = Inr [(''A'', ''AV'')] \<and>
   Cvss3_parse_score ''CVSS:3.1/AV'' = Inr [(''A'', ''AV'')] \<and>
   Cvss3_parse_score ''CVSS'' = Inr [(''CVS'', ''CVSS'')] \<and>
   Cvss2_parse_score ''CVSS'' = Inr [('''', '''')]"
    by simp
  show ?thesis
    by (intro conjI last v2 c2 c3 conjunct1 [OF v3] conjunct2 [OF v3])
      (simp_all add: one')
qed

text \<open>
  C1, as the code has it. For every input vector string, parsing (\<open>Cvss2.parse_score\<close> or
  \<open>Cvss3.parse_score\<close>) returns a mapping of at least one entry and does not fail, also
  when a segment contains no colon or when the prefix length exceeds the length of the
  string; the prefix length that the version-3 parser computes never exceeds it.
\<close>

theorem parse_score_never_fails:
  "(\<exists>score_dict. Cvss2_parse_score s = Inr score_dict \<and> score_dict \<noteq> []) \<and>
   (\<exists>score_dict. Cvss3_parse_score s = Inr score_dict \<and> score_dict \<noteq> []) \<and>
   0 \<le> py_find s CHR ''/'' + 1 \<and> py_find s CHR ''/'' + 1 \<le> int (length s)"
  using py_find_bounds [of s "CHR ''/''"]
  by (simp add: Cvss2_parse_score_def Cvss3_parse_score_def dict_comprehension_not_Nil
      py_split_not_Nil)

text \<open>
  The claim C1 as the specification states it fails: a vector with a segment without a
  colon, and a version-2 vector shorter than its 6-character prefix, are parsed.
\<close>

theorem parse_score_fails_counterexample:
  "''Au'' \<in> set (py_split (py_slice_from ''CVSS2#AV:N/Au'' 6) CHR ''/'') \<and>
   CHR '':'' \<notin> set ''Au'' \<and>
   Cvss2_parse_score ''CVSS2#AV:N/Au'' = Inr [(''AV'', ''N''), (''A'', ''Au'')] \<and>
   ''Au'' \<in> set (py_split (py_slice_from ''CVSS:3.1/AV:N/Au''
      (py_find ''CVSS:3.1/AV:N/Au'' CHR ''/'' + 1)) CHR ''/'') \<and>
   Cvss3_parse_score ''CVSS:3.1/AV:N/Au'' = Inr [(''AV'', ''N''), (''A'', ''Au'')] \<and>
   length ''CVS'' < 6 \<and>
   Cvss2_parse_score ''CVS'' = Inr [('''', '''')]"
  by (simp add: Cvss2_parse_score_def Cvss3_parse_score_def dict_comprehension_def
      split_metric_def py_slice_from_def py_slice_to_def slice_index_def py_rfind_def
      py_find_def)

lemma char_in_take_iff: "c \<in> set (take n s) \<longleftrightarrow> (\<exists>i. i < n \<and> i < length s \<and> s ! i = c)"
  by (auto simp: in_set_conv_nth)

text \<open>
  C2. For every trimmed input string, the dispatcher selects the version-2 parser and
  resolver (\<open>Cvss2\<close>) if and only if the character \<open>2\<close> occurs among the first six
  characters of the string; otherwise it selects the version-3 pair (\<open>Cvss3\<close>).
\<close>

theorem main_instance_version:
  "(main_instance s = Cvss2 s \<longleftrightarrow> (\<exists>i. i < 6 \<and> i < length s \<and> s ! i = CHR ''2'')) \<and>
   (main_instance s = Cvss3 s \<longleftrightarrow> \<not> (\<exists>i. i < 6 \<and> i < length s \<and> s ! i = CHR ''2'')) \<and>
   ((\<exists>i. i < 6 \<and> i < length s \<and> s ! i = CHR ''2'') \<longrightarrow>
      parse_score (main_instance s) = Cvss2_parse_score s \<and>
      determine_metrics (main_instance s) = Cvss2_determine_metrics) \<and>
   (\<not> (\<exists>i. i < 6 \<and> i < length s \<and> s ! i = CHR ''2'') \<longrightarrow>
      parse_score (main_instance s) = Cvss3_parse_score s \<and>
      determine_metrics (main_instance s) = Cvss3_determine_metrics)"
proof -
  have "CHR ''2'' \<in> set (py_slice_to s 6) \<longleftrightarrow> (\<exists>i. i < 6 \<and> i < length s \<and> s ! i = CHR ''2'')"
    by (simp add: py_slice_to_six char_in_take_iff)
  then show ?thesis
    by (auto simp: main_instance_def fun_eq_iff)
qed

theorem main_instance_version_witness:
  "(4::nat) < 6 \<and> 4 < length ''CVSS2#AV:N'' \<and> ''CVSS2#AV:N'' ! 4 = CHR ''2'' \<and>
   main_instance ''CVSS2#AV:N'' = Cvss2 ''CVSS2#AV:N'' \<and>
   parse_score (main_instance ''CVSS2#AV:N'') = Cvss2_parse_score ''CVSS2#AV:N'' \<and>
   determine_metrics (main_instance ''CVSS2#AV:N'') = Cvss2_determine_metrics \<and>
   CHR ''2'' \<notin> set (take 6 ''CVSS:3.1/AV:N'') \<and>
   main_instance ''CVSS:3.1/AV:N'' = Cvss3 ''CVSS:3.1/AV:N'' \<and>
   parse_score (main_instance ''CVSS:3.1/AV:N'') = Cvss3_parse_score ''CVSS:3.1/AV:N'' \<and>
   determine_metrics (main_instance ''CVSS:3.1/AV:N'') = Cvss3_determine_metrics"
proof -
  have two: "\<exists>i. i < 6 \<and> i < length ''CVSS2#AV:N'' \<and> ''CVSS2#AV:N'' ! i = CHR ''2''"
    by (rule exI [of _ 4]) simp
  have three: "\<not> (\<exists>i. i < 6 \<and> i < length ''CVSS:3.1/AV:N'' \<and> ''CVSS:3.1/AV:N'' ! i = CHR ''2'')"
  proof -
    have "CHR ''2'' \<notin> set (take 6 ''CVSS:3.1/AV:N'')" by simp
    with char_in_take_iff [of "CHR ''2''" 6 "''CVSS:3.1/AV:N''"] show ?thesis by blast
  qed
  from two main_instance_version [of "''CVSS2#AV:N''"]
  have a: "main_instance ''CVSS2#AV:N'' = Cvss2 ''CVSS2#AV:N'' \<and>
   parse_score (main_instance ''CVSS2#AV:N'') = Cvss2_parse_score ''CVSS2#AV:N'' \<and>
   determine_metrics (main_instance ''CVSS2#AV:N'') = Cvss2_determine_metrics"
    by blast
  from three main_instance_version [of "''CVSS:3.1/AV:N''"]
  have b: "main_instance ''CVSS:3.1/AV:N'' = Cvss3 ''CVSS:3.1/AV:N'' \<and>
   parse_score (main_instance ''CVSS:3.1/AV:N'') = Cvss3_parse_score ''CVSS:3.1/AV:N'' \<and>
   determine_metrics (main_instance ''CVSS:3.1/AV:N'') = Cvss3_determine_metrics"
    by blast
  have p1: "(4::nat) < 6 \<and> 4 < length ''CVSS2#AV:N'' \<and> ''CVSS2#AV:N'' ! 4 = CHR ''2''"
    by simp
  have p2: "CHR ''2'' \<notin> set (take 6 ''CVSS:3.1/AV:N'')" by simp
  from a b p1 p2 show ?thesis by blast
qed

text \<open>
  C5. For every input string whose segments yield a duplicate identifier, the mapping
  returned by \<open>parse_score\<close> (v2 or v3) contains that identifier exactly once, bound to the
  value from the last occurrence in the input, with no error raised: when the segments
  at positions \<open>i < j\<close> yield the same identifier and no segment after \<open>j\<close> does, the
  result is a dictionary whose only entry for the identifier is the pair of segment \<open>j\<close>.
\<close>

theorem parse_score_duplicate_last_wins:
  assumes "segs = py_split (py_slice_from s 6) CHR ''/'' \<and> parsed = Cvss2_parse_score s \<or>
           segs = py_split (py_slice_from s (py_find s CHR ''/'' + 1)) CHR ''/'' \<and>
             parsed = Cvss3_parse_score s"
      and "i < j" and "j < length segs"
      and "fst (split_metric (segs ! i)) = fst (split_metric (segs ! j))"
      and "\<not> (\<exists>m. j < m \<and> m < length segs \<and>
             fst (split_metric (segs ! m)) = fst (split_metric (segs ! j)))"
  shows "\<exists>score_dict. parsed = Inr score_dict \<and>
           filter (\<lambda>(k, v). k = fst (split_metric (segs ! j))) score_dict
             = [split_metric (segs ! j)]"
proof -
  from assms(1) have parsed: "parsed = Inr (dict_comprehension segs)"
    by (auto simp: Cvss2_parse_score_def Cvss3_parse_score_def)
  from assms(5)
  have "\<forall>m. j < m \<and> m < length segs \<longrightarrow>
          fst (split_metric (segs ! m)) \<noteq> fst (split_metric (segs ! j))"
    by blast
  with assms(3)
  have "map_of (dict_comprehension segs) (fst (split_metric (segs ! j)))
        = Some (snd (split_metric (segs ! j)))"
    by (rule dict_comprehension_last_wins)
  with dict_comprehension_distinct [of segs]
  have "filter (\<lambda>(k, v). k = fst (split_metric (segs ! j))) (dict_comprehension segs)
        = [(fst (split_metric (segs ! j)), snd (split_metric (segs ! j)))]"
    by (rule distinct_keys_filter)
  with parsed show ?thesis by simp
qed

lemma split_metric_AV_N: "split_metric ''AV:N'' = (''AV'', ''N'')"
  using split_metric_last_colon [of "''N''" "''AV''"] by simp

lemma split_metric_AV_L: "split_metric ''AV:L'' = (''AV'', ''L'')"
  using split_metric_last_colon [of "''L''" "''AV''"] by simp

lemma split_metric_AC_L: "split_metric ''AC:L'' = (''AC'', ''L'')"
  using split_metric_last_colon [of "''L''" "''AC''"] by simp

lemma split_metric_C_L: "split_metric ''C:L'' = (''C'', ''L'')"
  using split_metric_last_colon [of "''L''" "''C''"] by simp

lemma split_metric_C_H: "split_metric ''C:H'' = (''C'', ''H'')"
  using split_metric_last_colon [of "''H''" "''C''"] by simp

theorem parse_score_duplicate_last_wins_witness:
  "[''AV:N'', ''AC:L'', ''AV:L''] = py_split (py_slice_from ''CVSS2#AV:N/AC:L/AV:L'' 6) CHR ''/'' \<and>
   (0::nat) < 2 \<and> 2 < length [''AV:N'', ''AC:L'', ''AV:L''] \<and>
   fst (split_metric ([''AV:N'', ''AC:L'', ''AV:L''] ! 0)) = ''AV'' \<and>
   split_metric ([''AV:N'', ''AC:L'', ''AV:L''] ! 2) = (''AV'', ''L'') \<and>
   Cvss2_parse_score ''CVSS2#AV:N/AC:L/AV:L'' = Inr [(''AV'', ''L''), (''AC'', ''L'')] \<and>
   (\<exists>score_dict. Cvss2_parse_score ''CVSS2#AV:N/AC:L/AV:L'' = Inr score_dict \<and>
      filter (\<lambda>(k, v). k = ''AV'') score_dict = [(''AV'', ''L'')]) \<and>
   [''C:L'', ''C:H''] = py_split (py_slice_from ''CVSS:3.1/C:L/C:H''
      (py_find ''CVSS:3.1/C:L/C:H'' CHR ''/'' + 1)) CHR ''/'' \<and>
   Cvss3_parse_score ''CVSS:3.1/C:L/C:H'' = Inr [(''C'', ''H'')] \<and>
   (\<exists>score_dict. Cvss3_parse_score ''CVSS:3.1/C:L/C:H'' = Inr score_dict \<and>
      filter (\<lambda>(k, v). k = ''C'') score_dict = [(''C'', ''H'')])"
proof -
  let ?segs3 = "[''C:L'', ''C:H'']"
  have segs3: "?segs3 = py_split (py_slice_from ''CVSS:3.1/C:L/C:H''
      (py_find ''CVSS:3.1/C:L/C:H'' CHR ''/'' + 1)) CHR ''/''"
    using Cvss3_remainder_slash [of "''CVSS:3.1''" "''C:L/C:H''"] by simp
  have g1: "?segs3 = py_split (py_slice_from ''CVSS:3.1/C:L/C:H'' 6) CHR ''/'' \<and>
      Cvss3_parse_score ''CVSS:3.1/C:L/C:H'' = Cvss2_parse_score ''CVSS:3.1/C:L/C:H'' \<or>
    ?segs3 = py_split (py_slice_from ''CVSS:3.1/C:L/C:H''
        (py_find ''CVSS:3.1/C:L/C:H'' CHR ''/'' + 1)) CHR ''/'' \<and>
      Cvss3_parse_score ''CVSS:3.1/C:L/C:H'' = Cvss3_parse_score ''CVSS:3.1/C:L/C:H''"
    using segs3 by simp
  have g2: "(0::nat) < 1" by simp
  have g3: "1 < length ?segs3" by simp
  have g4: "fst (split_metric (?segs3 ! 0)) = fst (split_metric (?segs3 ! 1))"
    by (simp add: split_metric_C_L split_metric_C_H)
  have g5: "\<not> (\<exists>m. 1 < m \<and> m < length ?segs3 \<and>
      fst (split_metric (?segs3 ! m)) = fst (split_metric (?segs3 ! 1)))"
    by simp
  have val3: "Cvss3_parse_score ''CVSS:3.1/C:L/C:H'' = Inr [(''C'', ''H'')]"
    by (simp add: Cvss3_parse_score_def segs3 [symmetric] dict_comprehension_def
        split_metric_C_L split_metric_C_H)
  from parse_score_duplicate_last_wins [OF g1 g2 g3 g4 g5]
  have c3: "\<exists>score_dict. Cvss3_parse_score ''CVSS:3.1/C:L/C:H'' = Inr score_dict \<and>
      filter (\<lambda>(k, v). k = ''C'') score_dict = [(''C'', ''H'')]"
    by (simp add: split_metric_C_H)
  let ?segs = "[''AV:N'', ''AC:L'', ''AV:L'']"
  have segs: "?segs = py_split (py_slice_from ''CVSS2#AV:N/AC:L/AV:L'' 6) CHR ''/''"
    by (simp add: py_slice_from_six)
  have h1: "?segs = py_split (py_slice_from ''CVSS2#AV:N/AC:L/AV:L'' 6) CHR ''/'' \<and>
      Cvss2_parse_score ''CVSS2#AV:N/AC:L/AV:L'' = Cvss2_parse_score ''CVSS2#AV:N/AC:L/AV:L'' \<or>
    ?segs = py_split (py_slice_from ''CVSS2#AV:N/AC:L/AV:L''
        (py_find ''CVSS2#AV:N/AC:L/AV:L'' CHR ''/'' + 1)) CHR ''/'' \<and>
      Cvss2_parse_score ''CVSS2#AV:N/AC:L/AV:L'' = Cvss3_parse_score ''CVSS2#AV:N/AC:L/AV:L''"
    using segs by simp
  have h2: "(0::nat) < 2" by simp
  have h3: "2 < length ?segs" by simp
  have h4: "fst (split_metric (?segs ! 0)) = fst (split_metric (?segs ! 2))"
    by (simp add: split_metric_AV_N split_metric_AV_L)
  have h5: "\<not> (\<exists>m. 2 < m \<and> m < length ?segs \<and>
      fst (split_metric (?segs ! m)) = fst (split_metric (?segs ! 2)))"
    by simp
  have val: "Cvss2_parse_score ''CVSS2#AV:N/AC:L/AV:L'' = Inr [(''AV'', ''L''), (''AC'', ''L'')]"
    by (simp add: Cvss2_parse_score_def segs [symmetric] dict_comprehension_def
        split_metric_AV_N split_metric_AV_L split_metric_AC_L)
  from parse_score_duplicate_last_wins [OF h1 h2 h3 h4 h5]
  have c: "\<exists>score_dict. Cvss2_parse_score ''CVSS2#AV:N/AC:L/AV:L'' = Inr score_dict \<and>
      filter (\<lambda>(k, v). k = ''AV'') score_dict = [(''AV'', ''L'')]"
    by (simp add: split_metric_AV_L)
  show ?thesis
    by (intro conjI segs h2 h3 val c segs3 val3 c3)
      (simp_all add: split_metric_AV_N split_metric_AV_L)
qed

section \<open>The resolvers\<close>

lemma lower_AV: "lower ''AV'' = ''av''"
  by (simp add: lower_def char_lower_def upper_letters_def lower_letters_def)

lemma lower_AC: "lower ''AC'' = ''ac''"
  by (simp add: lower_def char_lower_def upper_letters_def lower_letters_def)

lemma lower_Au: "lower ''Au'' = ''au''"
  by (simp add: lower_def char_lower_def upper_letters_def lower_letters_def)

lemma lower_PR: "lower ''PR'' = ''pr''"
  by (simp add: lower_def char_lower_def upper_letters_def lower_letters_def)

lemma lower_UI: "lower ''UI'' = ''ui''"
  by (simp add: lower_def char_lower_def upper_letters_def lower_letters_def)

lemma lower_S: "lower ''S'' = ''s''"
  by (simp add: lower_def char_lower_def upper_letters_def lower_letters_def)

lemma lower_C: "lower ''C'' = ''c''"
  by (simp add: lower_def char_lower_def upper_letters_def lower_letters_def)

lemma lower_I: "lower ''I'' = ''i''"
  by (simp add: lower_def char_lower_def upper_letters_def lower_letters_def)

lemma lower_A: "lower ''A'' = ''a''"
  by (simp add: lower_def char_lower_def upper_letters_def lower_letters_def)

lemmas lower_identifiers =
  lower_AV lower_AC lower_Au lower_PR lower_UI lower_S lower_C lower_I lower_A





text \<open>
  C7. For every (identifier, value) pair whose value code is absent from the table
  selected for that identifier and version, resolution fails with a lookup error rather
  than returning any definition: \<open>check_definition\<close> raises \<open>KeyError\<close> for the value, and
  \<open>determine_metrics\<close> raises for every mapping that holds the pair. In particular an
  invalid value code such as \<open>C:Z\<close> never yields a silent wrong answer.
\<close>

theorem check_definition_unknown_value:
  "(value \<notin> fst ` set (Cvss2_table (lower identifier)) \<longrightarrow>
      Cvss2_check_definition (lower identifier) value = Inl (KeyError value) \<and>
      ((identifier, value) \<in> set score_dict \<longrightarrow>
         (\<exists>e. Cvss2_determine_metrics score_dict = Inl e))) \<and>
   (value \<notin> fst ` set (Cvss3_table (lower identifier)) \<longrightarrow>
      Cvss3_check_definition (lower identifier) value = Inl (KeyError value) \<and>
      ((identifier, value) \<in> set score_dict \<longrightarrow>
         (\<exists>e. Cvss3_determine_metrics score_dict = Inl e)))"
proof (intro conjI impI)
  assume absent: "value \<notin> fst ` set (Cvss2_table (lower identifier))"
  then show err: "Cvss2_check_definition (lower identifier) value = Inl (KeyError value)"
    by (simp add: Cvss2_check_definition_table py_getitem_absent)
  assume "(identifier, value) \<in> set score_dict"
  then show "\<exists>e. Cvss2_determine_metrics score_dict = Inl e"
    unfolding Cvss2_determine_metrics_def using err by (rule Cvss2_determine_loop_fails)
next
  assume absent: "value \<notin> fst ` set (Cvss3_table (lower identifier))"
  then show err: "Cvss3_check_definition (lower identifier) value = Inl (KeyError value)"
    by (simp add: Cvss3_check_definition_table py_getitem_absent)
  assume "(identifier, value) \<in> set score_dict"
  then show "\<exists>e. Cvss3_determine_metrics score_dict = Inl e"
    unfolding Cvss3_determine_metrics_def using err by (rule Cvss3_determine_loop_fails)
qed

theorem check_definition_unknown_value_witness:
  "Cvss2_table (lower ''C'') = confidentialityv2 \<and>
   ''Z'' \<notin> fst ` set confidentialityv2 \<and>
   Cvss3_table (lower ''C'') = confidentialityv3 \<and>
   ''Z'' \<notin> fst ` set confidentialityv3 \<and>
   (''C'', ''Z'') \<in> set [(''AV'', ''N''), (''C'', ''Z'')] \<and>
   Cvss2_check_definition (lower ''C'') ''Z'' = Inl (KeyError ''Z'') \<and>
   Cvss3_check_definition (lower ''C'') ''Z'' = Inl (KeyError ''Z'') \<and>
   (\<exists>e. Cvss2_determine_metrics [(''AV'', ''N''), (''C'', ''Z'')] = Inl e) \<and>
   (\<exists>e. Cvss3_determine_metrics [(''AV'', ''N''), (''C'', ''Z'')] = Inl e)"
proof -
  have t2: "Cvss2_table (lower ''C'') = confidentialityv2"
    by (simp add: lower_C Cvss2_table_def)
  have t3: "Cvss3_table (lower ''C'') = confidentialityv3"
    by (simp add: lower_C Cvss3_table_def)
  have a2: "''Z'' \<notin> fst ` set confidentialityv2"
    by (simp add: confidentialityv2_def)
  have a3: "''Z'' \<notin> fst ` set confidentialityv3"
    by (simp add: confidentialityv3_def)
  have m: "(''C'', ''Z'') \<in> set [(''AV'', ''N''), (''C'', ''Z'')]" by simp
  from check_definition_unknown_value [of "''Z''" "''C''" "[(''AV'', ''N''), (''C'', ''Z'')]"]
    t2 t3 a2 a3 m
  have "Cvss2_check_definition (lower ''C'') ''Z'' = Inl (KeyError ''Z'') \<and>
   Cvss3_check_definition (lower ''C'') ''Z'' = Inl (KeyError ''Z'') \<and>
   (\<exists>e. Cvss2_determine_metrics [(''AV'', ''N''), (''C'', ''Z'')] = Inl e) \<and>
   (\<exists>e. Cvss3_determine_metrics [(''AV'', ''N''), (''C'', ''Z'')] = Inl e)"
    by metis
  with t2 t3 a2 a3 m show ?thesis by blast
qed

text \<open>
  C10. For every parsed mapping on which resolution succeeds, \<open>determine_metrics\<close> (v2 and
  v3) returns a mapping whose keys, in order, are exactly those of its input mapping:
  identifiers are carried through unchanged, original case preserved, and each key's
  definition is what \<open>check_definition\<close> gives for its own lowercased identifier and value.
  The keys of a dictionary are distinct, as those of a parsed mapping are.
\<close>

theorem determine_metrics_keys:
  assumes "distinct (map fst score_dict)"
  shows "(Cvss2_determine_metrics score_dict = Inr results \<longrightarrow>
           map fst results = map fst score_dict \<and>
           list_all2 (\<lambda>(identifier, value) (k, d).
               k = identifier \<and> Cvss2_check_definition (lower identifier) value = Inr d)
             score_dict results) \<and>
         (Cvss3_determine_metrics score_dict = Inr results \<longrightarrow>
           map fst results = map fst score_dict \<and>
           list_all2 (\<lambda>(identifier, value) (k, d).
               k = identifier \<and> Cvss3_check_definition (lower identifier) value = Inr d)
             score_dict results)"
proof (intro conjI impI)
  assume "Cvss2_determine_metrics score_dict = Inr results"
  then have "Cvss2_determine_loop score_dict [] = Inr results"
    by (simp add: Cvss2_determine_metrics_def)
  from Cvss2_determine_loop_result [OF this] assms
  show all2: "list_all2 (\<lambda>(identifier, value) (k, d).
               k = identifier \<and> Cvss2_check_definition (lower identifier) value = Inr d)
             score_dict results"
    by simp
  then show "map fst results = map fst score_dict"
    by (rule list_all2_keys)
next
  assume "Cvss3_determine_metrics score_dict = Inr results"
  then have "Cvss3_determine_loop score_dict [] = Inr results"
    by (simp add: Cvss3_determine_metrics_def)
  from Cvss3_determine_loop_result [OF this] assms
  show all2: "list_all2 (\<lambda>(identifier, value) (k, d).
               k = identifier \<and> Cvss3_check_definition (lower identifier) value = Inr d)
             score_dict results"
    by simp
  then show "map fst results = map fst score_dict"
    by (rule list_all2_keys)
qed

lemma lower_aV: "lower ''aV'' = ''av''"
  by (simp add: lower_def char_lower_def upper_letters_def lower_letters_def)

lemma lower_Ac: "lower ''Ac'' = ''ac''"
  by (simp add: lower_def char_lower_def upper_letters_def lower_letters_def)

theorem determine_metrics_keys_witness:
  "Cvss2_parse_score ''CVSS2#aV:N/Ac:L'' = Inr [(''aV'', ''N''), (''Ac'', ''L'')] \<and>
   distinct (map fst [(''aV'', ''N''), (''Ac'', ''L'')]) \<and>
   Cvss2_determine_metrics [(''aV'', ''N''), (''Ac'', ''L'')] =
     Inr [(''aV'', ''Network (N): The attacker can remotely exploit the vulnerability.''),
          (''Ac'', ''Low (L): Exploiting the vulnerability does not require specilized conditions.'')] \<and>
   map fst [(''aV'', ''Network (N): The attacker can remotely exploit the vulnerability.''),
          (''Ac'', ''Low (L): Exploiting the vulnerability does not require specilized conditions.'')]
     = map fst [(''aV'', ''N''), (''Ac'', ''L'')] \<and>
   Cvss2_check_definition (lower ''aV'') ''N'' =
     Inr ''Network (N): The attacker can remotely exploit the vulnerability.'' \<and>
   Cvss2_check_definition (lower ''Ac'') ''L'' =
     Inr ''Low (L): Exploiting the vulnerability does not require specilized conditions.'' \<and>
   Cvss3_determine_metrics [(''aV'', ''N''), (''Ac'', ''L'')] =
     Inr [(''aV'', ''Network (N): The attacker can remotely exploit the vulnerability.''),
          (''Ac'', ''Low (L): Specialized access conditions or extenuating circumstances do not exist. An attacker can expect repeatable success against the vulnerable component.'')] \<and>
   Cvss3_check_definition (lower ''Ac'') ''L'' =
     Inr ''Low (L): Specialized access conditions or extenuating circumstances do not exist. An attacker can expect repeatable success against the vulnerable component.''"
proof -
  let ?d = "[(''aV'', ''N''), (''Ac'', ''L'')]"
  let ?r2 = "[(''aV'', ''Network (N): The attacker can remotely exploit the vulnerability.''),
          (''Ac'', ''Low (L): Exploiting the vulnerability does not require specilized conditions.'')]"
  let ?r3 = "[(''aV'', ''Network (N): The attacker can remotely exploit the vulnerability.''),
          (''Ac'', ''Low (L): Specialized access conditions or extenuating circumstances do not exist. An attacker can expect repeatable success against the vulnerable component.'')]"
  have parse: "Cvss2_parse_score ''CVSS2#aV:N/Ac:L'' = Inr ?d"
    using split_metric_last_colon [of "''N''" "''aV''"] split_metric_last_colon [of "''L''" "''Ac''"]
    by (simp add: Cvss2_parse_score_def py_slice_from_six dict_comprehension_def)
  have dist: "distinct (map fst ?d)" by simp
  have r2: "Cvss2_determine_metrics ?d = Inr ?r2"
    by (simp add: Cvss2_determine_metrics_def lower_aV lower_Ac Cvss2_check_definition_def
        py_getitem_def access_vector_def access_complexitiyv2_def)
  have r3: "Cvss3_determine_metrics ?d = Inr ?r3"
    by (simp add: Cvss3_determine_metrics_def lower_aV lower_Ac Cvss3_check_definition_def
        py_getitem_def access_vector_def access_complexitiyv3_def)
  from determine_metrics_keys [OF dist, of ?r2] r2
  have k2: "map fst ?r2 = map fst ?d \<and>
    Cvss2_check_definition (lower ''aV'') ''N'' =
     Inr ''Network (N): The attacker can remotely exploit the vulnerability.'' \<and>
    Cvss2_check_definition (lower ''Ac'') ''L'' =
     Inr ''Low (L): Exploiting the vulnerability does not require specilized conditions.''"
    by simp
  from determine_metrics_keys [OF dist, of ?r3] r3
  have k3: "Cvss3_check_definition (lower ''Ac'') ''L'' =
     Inr ''Low (L): Specialized access conditions or extenuating circumstances do not exist. An attacker can expect repeatable success against the vulnerable component.''"
    by simp
  from parse dist r2 r3 k2 k3 show ?thesis by (intro conjI) blast+
qed

section \<open>Version-2 vectors\<close>

lemma Cvss2_parse_score_pairs:
  assumes "pairs \<noteq> []"
      and "\<forall>(k, v)\<in>set pairs. CHR ''/'' \<notin> set k \<and> CHR ''/'' \<notin> set v \<and> CHR '':'' \<notin> set v"
      and "distinct (map fst pairs)"
      and "drop 6 s = py_join CHR ''/'' (map (\<lambda>(k, v). k @ CHR '':'' # v) pairs)"
  shows "Cvss2_parse_score s = Inr pairs"
proof -
  let ?segs = "map (\<lambda>(k, v). k @ CHR '':'' # v) pairs"
  have "py_split (py_join CHR ''/'' ?segs) CHR ''/'' = ?segs"
    using assms(1,2) by (intro py_split_pairs) auto
  with assms(4) have segs: "py_split (py_slice_from s 6) CHR ''/'' = ?segs"
    by (simp add: py_slice_from_six)
  have pairs: "map split_metric ?segs = pairs"
    using assms(2) by (intro split_metric_pairs) auto
  have "map (\<lambda>seg. fst (split_metric seg)) ?segs = map fst (map split_metric ?segs)"
    by (simp add: comp_def)
  also have "\<dots> = map fst pairs"
    by (simp only: pairs)
  finally have keys: "map (\<lambda>seg. fst (split_metric seg)) ?segs = map fst pairs" .
  have "distinct (map (\<lambda>seg. fst (split_metric seg)) ?segs)"
    by (subst keys) (rule assms(3))
  then have "dict_comprehension ?segs = map split_metric ?segs"
    by (rule dict_comprehension_distinct_keys)
  with segs pairs show ?thesis
    by (simp add: Cvss2_parse_score_def)
qed

lemma map_of_Some_key: "map_of table x = Some d \<Longrightarrow> x \<in> fst ` set table"
  by (force dest: map_of_SomeD)

lemma access_vector_key:
  "map_of access_vector x = Some d \<Longrightarrow> CHR ''/'' \<notin> set x \<and> CHR '':'' \<notin> set x"
  using map_of_Some_key [of access_vector x d] by (auto simp: access_vector_def)

lemma access_complexitiyv2_key:
  "map_of access_complexitiyv2 x = Some d \<Longrightarrow> CHR ''/'' \<notin> set x \<and> CHR '':'' \<notin> set x"
  using map_of_Some_key [of access_complexitiyv2 x d] by (auto simp: access_complexitiyv2_def)

lemma authentication_key:
  "map_of authentication x = Some d \<Longrightarrow> CHR ''/'' \<notin> set x \<and> CHR '':'' \<notin> set x"
  using map_of_Some_key [of authentication x d] by (auto simp: authentication_def)

lemma confidentialityv2_key:
  "map_of confidentialityv2 x = Some d \<Longrightarrow> CHR ''/'' \<notin> set x \<and> CHR '':'' \<notin> set x"
  using map_of_Some_key [of confidentialityv2 x d] by (auto simp: confidentialityv2_def)

lemma integrityv2_key:
  "map_of integrityv2 x = Some d \<Longrightarrow> CHR ''/'' \<notin> set x \<and> CHR '':'' \<notin> set x"
  using map_of_Some_key [of integrityv2 x d] by (auto simp: integrityv2_def)

lemma availabilityv2_key:
  "map_of availabilityv2 x = Some d \<Longrightarrow> CHR ''/'' \<notin> set x \<and> CHR '':'' \<notin> set x"
  using map_of_Some_key [of availabilityv2 x d] by (auto simp: availabilityv2_def)

lemma Cvss2_determine_metrics_six:
  assumes "py_getitem access_vector x = Inr dx"
      and "py_getitem access_complexitiyv2 y = Inr dy"
      and "py_getitem authentication z = Inr dz"
      and "py_getitem confidentialityv2 p = Inr dp"
      and "py_getitem integrityv2 q = Inr dq"
      and "py_getitem availabilityv2 r = Inr dr"
  shows "Cvss2_determine_metrics
           [(''AV'', x), (''AC'', y), (''Au'', z), (''C'', p), (''I'', q), (''A'', r)]
         = Inr [(''AV'', dx), (''AC'', dy), (''Au'', dz), (''C'', dp), (''I'', dq), (''A'', dr)]"
  using assms
  by (simp add: Cvss2_determine_metrics_def lower_identifiers Cvss2_check_definition_def)

lemma main_instance_CVSS2: "main_instance (''CVSS2#'' @ t) = Cvss2 (''CVSS2#'' @ t)"
  by (simp add: main_instance_def py_slice_to_six)

text \<open>
  C8. For every valid v2 vector of the form \<open>CVSS2#AV:x/AC:y/Au:z/C:p/I:q/A:r\<close>, each value
  present in the relevant v2 table, parsing then resolving yields exactly six
  definitions, one per identifier, each equal to the entry of the corresponding v2
  table; \<open>main\<close> takes the version-2 classes for it.
\<close>

theorem Cvss2_valid_vector:
  assumes "map_of access_vector x = Some dx"
      and "map_of access_complexitiyv2 y = Some dy"
      and "map_of authentication z = Some dz"
      and "map_of confidentialityv2 p = Some dp"
      and "map_of integrityv2 q = Some dq"
      and "map_of availabilityv2 r = Some dr"
      and "s = ''CVSS2#AV:'' @ x @ ''/AC:'' @ y @ ''/Au:'' @ z @ ''/C:'' @ p @ ''/I:'' @ q @
             ''/A:'' @ r"
  shows "Cvss2_parse_score s =
           Inr [(''AV'', x), (''AC'', y), (''Au'', z), (''C'', p), (''I'', q), (''A'', r)] \<and>
         Cvss2_determine_metrics
           [(''AV'', x), (''AC'', y), (''Au'', z), (''C'', p), (''I'', q), (''A'', r)] =
           Inr [(''AV'', dx), (''AC'', dy), (''Au'', dz), (''C'', dp), (''I'', dq), (''A'', dr)] \<and>
         main_results s =
           Inr [(''AV'', dx), (''AC'', dy), (''Au'', dz), (''C'', dp), (''I'', dq), (''A'', dr)]"
proof -
  let ?pairs = "[(''AV'', x), (''AC'', y), (''Au'', z), (''C'', p), (''I'', q), (''A'', r)]"
  have ne: "?pairs \<noteq> []" by simp
  have chars: "\<forall>(k, v)\<in>set ?pairs.
      CHR ''/'' \<notin> set k \<and> CHR ''/'' \<notin> set v \<and> CHR '':'' \<notin> set v"
    using access_vector_key [OF assms(1)] access_complexitiyv2_key [OF assms(2)]
      authentication_key [OF assms(3)] confidentialityv2_key [OF assms(4)]
      integrityv2_key [OF assms(5)] availabilityv2_key [OF assms(6)]
    by simp
  have dist: "distinct (map fst ?pairs)" by simp
  have tail: "drop 6 s = py_join CHR ''/'' (map (\<lambda>(k, v). k @ CHR '':'' # v) ?pairs)"
    by (simp add: assms(7))
  have parse: "Cvss2_parse_score s = Inr ?pairs"
    using ne chars dist tail by (rule Cvss2_parse_score_pairs)
  have resolve: "Cvss2_determine_metrics ?pairs =
      Inr [(''AV'', dx), (''AC'', dy), (''Au'', dz), (''C'', dp), (''I'', dq), (''A'', dr)]"
    using assms(1-6) by (intro Cvss2_determine_metrics_six py_getitem_present)
  have "main_instance s = Cvss2 s"
    using main_instance_CVSS2 [of "''AV:'' @ x @ ''/AC:'' @ y @ ''/Au:'' @ z @ ''/C:'' @ p @
      ''/I:'' @ q @ ''/A:'' @ r"] by (simp add: assms(7))
  then have "main_results s = Cvss2_determine_metrics ?pairs"
    by (simp add: main_results_def parse)
  with parse resolve show ?thesis by simp
qed

text \<open>
  The example of the specification: \<open>CVSS2#AV:N/AC:L/Au:N/C:C/I:C/A:C\<close> resolves \<open>AV\<close> to the
  Network definition, \<open>AC\<close> to Low (v2), \<open>Au\<close> to None, and \<open>C\<close>, \<open>I\<close>, \<open>A\<close> each to the
  Complete definition of its v2 table.
\<close>

theorem Cvss2_valid_vector_witness:
  "map_of access_vector ''N'' =
     Some ''Network (N): The attacker can remotely exploit the vulnerability.'' \<and>
   map_of access_complexitiyv2 ''L'' =
     Some ''Low (L): Exploiting the vulnerability does not require specilized conditions.'' \<and>
   map_of authentication ''N'' =
     Some ''None (N): Attackers do not need to authenticate to exploit the vulnerability.'' \<and>
   map_of confidentialityv2 ''C'' =
     Some ''Complete (C): All information on the system is compromised.'' \<and>
   map_of integrityv2 ''C'' =
     Some ''Complete (C): The integrity of the system is totally compromised, and the attacker may change any information at will.'' \<and>
   map_of availabilityv2 ''C'' =
     Some ''Complete (C): The system is completely shut down.'' \<and>
   Cvss2_parse_score ''CVSS2#AV:N/AC:L/Au:N/C:C/I:C/A:C'' =
     Inr [(''AV'', ''N''), (''AC'', ''L''), (''Au'', ''N''), (''C'', ''C''), (''I'', ''C''), (''A'', ''C'')] \<and>
   Cvss2_determine_metrics [(''AV'', ''N''), (''AC'', ''L''), (''Au'', ''N''), (''C'', ''C''), (''I'', ''C''), (''A'', ''C'')] =
     Inr [(''AV'',
           ''Network (N): The attacker can remotely exploit the vulnerability.''),
          (''AC'',
           ''Low (L): Exploiting the vulnerability does not require specilized conditions.''),
          (''Au'',
           ''None (N): Attackers do not need to authenticate to exploit the vulnerability.''),
          (''C'',
           ''Complete (C): All information on the system is compromised.''),
          (''I'',
           ''Complete (C): The integrity of the system is totally compromised, and the attacker may change any information at will.''),
          (''A'',
           ''Complete (C): The system is completely shut down.'')] \<and>
   main_results ''CVSS2#AV:N/AC:L/Au:N/C:C/I:C/A:C'' =
     Inr [(''AV'',
           ''Network (N): The attacker can remotely exploit the vulnerability.''),
          (''AC'',
           ''Low (L): Exploiting the vulnerability does not require specilized conditions.''),
          (''Au'',
           ''None (N): Attackers do not need to authenticate to exploit the vulnerability.''),
          (''C'',
           ''Complete (C): All information on the system is compromised.''),
          (''I'',
           ''Complete (C): The integrity of the system is totally compromised, and the attacker may change any information at will.''),
          (''A'',
           ''Complete (C): The system is completely shut down.'')]"
proof -
  have h1: "map_of access_vector ''N'' =
     Some ''Network (N): The attacker can remotely exploit the vulnerability.''"
    by (simp add: access_vector_def)
  have h2: "map_of access_complexitiyv2 ''L'' =
     Some ''Low (L): Exploiting the vulnerability does not require specilized conditions.''"
    by (simp add: access_complexitiyv2_def)
  have h3: "map_of authentication ''N'' =
     Some ''None (N): Attackers do not need to authenticate to exploit the vulnerability.''"
    by (simp add: authentication_def)
  have h4: "map_of confidentialityv2 ''C'' =
     Some ''Complete (C): All information on the system is compromised.''"
    by (simp add: confidentialityv2_def)
  have h5: "map_of integrityv2 ''C'' =
     Some ''Complete (C): The integrity of the system is totally compromised, and the attacker may change any information at will.''"
    by (simp add: integrityv2_def)
  have h6: "map_of availabilityv2 ''C'' =
     Some ''Complete (C): The system is completely shut down.''"
    by (simp add: availabilityv2_def)
  have h7: "''CVSS2#AV:N/AC:L/Au:N/C:C/I:C/A:C'' = ''CVSS2#AV:'' @ ''N'' @ ''/AC:'' @ ''L'' @ ''/Au:'' @ ''N'' @ ''/C:'' @ ''C'' @
      ''/I:'' @ ''C'' @ ''/A:'' @ ''C''"
    by simp
  note c = Cvss2_valid_vector [OF h1 h2 h3 h4 h5 h6 h7]
  from c h1 h2 h3 h4 h5 h6 show ?thesis by (intro conjI) blast+
qed

end
